theory Spec2Isabelle
  imports Main
begin

section \<open>The contribution heat map of \<open>src/src/App.tsx\<close>\<close>

text \<open>
  The two functions of \<open>App.tsx\<close> that compute (rather than fetch or render) are
  \<open>getCommitIntensity\<close>, which picks the CSS classes of a cell from a contribution count,
  and \<open>getContributionMatrix\<close>, which lays the fetched \<open>ContributionDay\<close> records out in
  a 52 by 7 grid aligned to the current time. Both are embedded below, with the parts of
  the JavaScript \<open>Date\<close> object the second one calls.
\<close>

subsection \<open>Data\<close>

text \<open>\<^verbatim>\<open>interface ContributionDay { contributionCount: number; date: string; }\<close>\<close>

record ContributionDay =
  contributionCount :: int
  date :: string

text \<open>
  A \<open>Date\<close> object holds a time value: an integral number of milliseconds since the epoch,
  or \<open>NaN\<close> for an invalid date. \<open>None\<close> is \<open>NaN\<close>.
\<close>

type_synonym Date = "int option"

text \<open>
  A grid cell is \<open>null\<close> (or a hole) or a record: \<open>None\<close> or \<open>Some day\<close>. The grid is an
  array of columns, each an array of cells.
\<close>

type_synonym matrix = "ContributionDay option list list"

text \<open>
  What the function reads from its host: the wall clock (\<open>new Date()\<close>), the string parser
  of the \<open>Date\<close> constructor (implementation-defined outside the ISO format, so a
  parameter), and the offset of local time, as ECMAScript's \<open>LocalTZA(t, isUTC)\<close>: from a
  UTC time value when \<open>isUTC\<close> is true, from a local one otherwise.
\<close>

record host =
  now :: int
  Date_parse :: "string \<Rightarrow> Date"
  LocalTZA_utc :: "int \<Rightarrow> int"
  LocalTZA_local :: "int \<Rightarrow> int"

datatype error = TypeError

subsection \<open>The \<open>Date\<close> arithmetic of ECMAScript\<close>

definition msPerDay :: int where
  "msPerDay = 86400000"

definition Day :: "int \<Rightarrow> int" where
  "Day t = t div msPerDay"

definition TimeWithinDay :: "int \<Rightarrow> int" where
  "TimeWithinDay t = t mod msPerDay"

definition DaysInYear :: "int \<Rightarrow> int" where
  "DaysInYear y =
     (if y mod 4 \<noteq> 0 then 365
      else if y mod 100 \<noteq> 0 then 366
      else if y mod 400 \<noteq> 0 then 365
      else 366)"

definition DayFromYear :: "int \<Rightarrow> int" where
  "DayFromYear y =
     365 * (y - 1970) + (y - 1969) div 4 - (y - 1901) div 100 + (y - 1601) div 400"

text \<open>
  \<open>YearFromTime(t)\<close> is the largest \<open>y\<close> with \<open>TimeFromYear(y) \<le> t\<close>. Computed from the
  day number: the estimate from the mean year length of 146097/400 days is off by at
  most one, and is adjusted (lemma \<open>YearFromDay_bounds\<close>).
\<close>

definition YearFromDay :: "int \<Rightarrow> int" where
  "YearFromDay d =
     (let y = 1970 + (400 * d) div 146097
      in if DayFromYear (y + 1) \<le> d then y + 1
         else if d < DayFromYear y then y - 1
         else y)"

definition YearFromTime :: "int \<Rightarrow> int" where
  "YearFromTime t = YearFromDay (Day t)"

definition leapFlag :: "int \<Rightarrow> int" where
  "leapFlag y = (if DaysInYear y = 366 then 1 else 0)"

definition InLeapYear :: "int \<Rightarrow> int" where
  "InLeapYear t = leapFlag (YearFromTime t)"

definition DayWithinYear :: "int \<Rightarrow> int" where
  "DayWithinYear t = Day t - DayFromYear (YearFromTime t)"

text \<open>
  The day within the year on which month \<open>m\<close> (0 to 11) starts, and the month a day
  within the year is in; \<open>l\<close> is 1 in a leap year. Month 12 stands for the start of the
  next year.
\<close>

definition monthStart :: "int \<Rightarrow> int \<Rightarrow> int" where
  "monthStart l m =
     (if m = 0 then 0
      else if m = 1 then 31
      else if m = 2 then 59 + l
      else if m = 3 then 90 + l
      else if m = 4 then 120 + l
      else if m = 5 then 151 + l
      else if m = 6 then 181 + l
      else if m = 7 then 212 + l
      else if m = 8 then 243 + l
      else if m = 9 then 273 + l
      else if m = 10 then 304 + l
      else if m = 11 then 334 + l
      else 365 + l)"

definition MonthFromDay :: "int \<Rightarrow> int \<Rightarrow> int" where
  "MonthFromDay l d =
     (if d < 31 then 0
      else if d < 59 + l then 1
      else if d < 90 + l then 2
      else if d < 120 + l then 3
      else if d < 151 + l then 4
      else if d < 181 + l then 5
      else if d < 212 + l then 6
      else if d < 243 + l then 7
      else if d < 273 + l then 8
      else if d < 304 + l then 9
      else if d < 334 + l then 10
      else 11)"

definition MonthFromTime :: "int \<Rightarrow> int" where
  "MonthFromTime t = MonthFromDay (InLeapYear t) (DayWithinYear t)"

definition DateFromTime :: "int \<Rightarrow> int" where
  "DateFromTime t = DayWithinYear t + 1 - monthStart (InLeapYear t) (MonthFromTime t)"

definition WeekDay :: "int \<Rightarrow> int" where
  "WeekDay t = (Day t + 4) mod 7"

text \<open>
  \<open>MakeDay(year, month, date)\<close>: the day number of the first of the month, found from the
  year and the month, plus \<open>date - 1\<close>. A month outside 0 to 11 carries into the year.
\<close>

definition MakeDay :: "int \<Rightarrow> int \<Rightarrow> int \<Rightarrow> int" where
  "MakeDay year month dt =
     (let ym = year + month div 12;
          mn = month mod 12
      in DayFromYear ym + monthStart (leapFlag ym) mn + dt - 1)"

definition MakeDate :: "int \<Rightarrow> int \<Rightarrow> int" where
  "MakeDate day time = day * msPerDay + time"

definition TimeClip :: "int \<Rightarrow> Date" where
  "TimeClip t = (if \<bar>t\<bar> > 8640000000000000 then None else Some t)"

definition LocalTime :: "host \<Rightarrow> int \<Rightarrow> int" where
  "LocalTime h t = t + LocalTZA_utc h t"

definition UTC :: "host \<Rightarrow> int \<Rightarrow> int" where
  "UTC h t = t - LocalTZA_local h t"

text \<open>\<open>Date.prototype.getFullYear\<close>, \<open>getDay\<close> and \<open>getTime\<close> on a valid date.\<close>

definition getFullYear :: "host \<Rightarrow> int \<Rightarrow> int" where
  "getFullYear h t = YearFromTime (LocalTime h t)"

definition getDay :: "host \<Rightarrow> int \<Rightarrow> int" where
  "getDay h t = WeekDay (LocalTime h t)"

text \<open>
  \<open>Date.prototype.setFullYear(year)\<close> with one argument: the month, the day of the month
  and the time within the day are kept, in local time; the result is clipped to the range
  of time values, and is \<open>NaN\<close> outside it.
\<close>

definition setFullYear :: "host \<Rightarrow> Date \<Rightarrow> int \<Rightarrow> Date" where
  "setFullYear h tv year =
     (let t = (case tv of None \<Rightarrow> 0 | Some v \<Rightarrow> LocalTime h v);
          newDate = MakeDay year (MonthFromTime t) (DateFromTime t);
          u = UTC h (MakeDate newDate (TimeWithinDay t))
      in TimeClip u)"

text \<open>
  \<open>a >= b\<close> and \<open>a <= b\<close> on \<open>Date\<close> objects compare the time values; a comparison with
  \<open>NaN\<close> is false.
\<close>

definition date_ge :: "Date \<Rightarrow> Date \<Rightarrow> bool" where
  "date_ge a b = (case a of None \<Rightarrow> False | Some x \<Rightarrow> (case b of None \<Rightarrow> False | Some y \<Rightarrow> x \<ge> y))"

definition date_le :: "Date \<Rightarrow> Date \<Rightarrow> bool" where
  "date_le a b = (case a of None \<Rightarrow> False | Some x \<Rightarrow> (case b of None \<Rightarrow> False | Some y \<Rightarrow> x \<le> y))"

subsection \<open>\<open>getCommitIntensity\<close>\<close>

definition getCommitIntensity :: "int \<Rightarrow> string" where
  "getCommitIntensity count =
     (if count = 0 then ''bg-[#161b22] border border-[#2d333b] hover:bg-[#1c2129] transition-all duration-300 hover:scale-150 hover:z-10''
      else if count \<le> 3 then ''bg-[#0e4429] border border-[#1b4b2d] hover:bg-[#155d38] transition-all duration-300 hover:scale-150 hover:z-10''
      else if count \<le> 6 then ''bg-[#006d32] border border-[#26a641] hover:bg-[#008d41] transition-all duration-300 hover:scale-150 hover:z-10''
      else if count \<le> 9 then ''bg-[#26a641] border border-[#39d353] hover:bg-[#2fc04c] transition-all duration-300 hover:scale-150 hover:z-10''
      else ''bg-[#39d353] border border-[#4ae168] hover:bg-[#4ae168] transition-all duration-300 hover:scale-150 hover:z-10'')"

text \<open>
  The five tiers of the specification, and the classes each one is drawn with. \<open>NoneTier\<close>
  is the tier the specification calls None.
\<close>

datatype tier = NoneTier | Low | Medium | High | VeryHigh

definition tierClass :: "tier \<Rightarrow> string" where
  "tierClass t =
     (case t of
        NoneTier \<Rightarrow> ''bg-[#161b22] border border-[#2d333b] hover:bg-[#1c2129] transition-all duration-300 hover:scale-150 hover:z-10''
      | Low \<Rightarrow> ''bg-[#0e4429] border border-[#1b4b2d] hover:bg-[#155d38] transition-all duration-300 hover:scale-150 hover:z-10''
      | Medium \<Rightarrow> ''bg-[#006d32] border border-[#26a641] hover:bg-[#008d41] transition-all duration-300 hover:scale-150 hover:z-10''
      | High \<Rightarrow> ''bg-[#26a641] border border-[#39d353] hover:bg-[#2fc04c] transition-all duration-300 hover:scale-150 hover:z-10''
      | VeryHigh \<Rightarrow> ''bg-[#39d353] border border-[#4ae168] hover:bg-[#4ae168] transition-all duration-300 hover:scale-150 hover:z-10'')"

text \<open>
  The classifier in the specification's words: 0 is None, 1 to 3 Low, 4 to 6 Medium,
  7 to 9 High, more than 9 VeryHigh. It is defined on the non-negative integers.
\<close>

definition classify_spec :: "nat \<Rightarrow> tier" where
  "classify_spec n =
     (if n = 0 then NoneTier
      else if 1 \<le> n \<and> n \<le> 3 then Low
      else if 4 \<le> n \<and> n \<le> 6 then Medium
      else if 7 \<le> n \<and> n \<le> 9 then High
      else VeryHigh)"

text \<open>
  The call site: \<^verbatim>\<open>getCommitIntensity(day?.contributionCount || 0)\<close>. An empty cell, and a
  count of 0, give 0.
\<close>

definition cellIntensity :: "ContributionDay option \<Rightarrow> string" where
  "cellIntensity cell =
     getCommitIntensity
       (case cell of None \<Rightarrow> 0
        | Some day \<Rightarrow> (if contributionCount day = 0 then 0 else contributionCount day))"

subsection \<open>\<open>getContributionMatrix\<close>\<close>

text \<open>
  \<open>xs[i] = v\<close> on a JavaScript array: inside the array the element is replaced; past its
  end the array grows, with holes in between; a negative index sets a property and leaves
  the elements alone.
\<close>

definition array_set :: "'a option list \<Rightarrow> int \<Rightarrow> 'a option \<Rightarrow> 'a option list" where
  "array_set xs i v =
     (if i < 0 then xs
      else if nat i < length xs then xs[nat i := v]
      else xs @ replicate (nat i - length xs) None @ [v])"

text \<open>
  \<^verbatim>\<open>matrix[c][r] = day\<close>: reading \<open>matrix[c]\<close> outside the array gives \<open>undefined\<close>, and
  setting an element of \<open>undefined\<close> throws a \<open>TypeError\<close>.
\<close>

definition matrix_set :: "matrix \<Rightarrow> int \<Rightarrow> int \<Rightarrow> ContributionDay \<Rightarrow> error + matrix" where
  "matrix_set m c r day =
     (if 0 \<le> c \<and> nat c < length m
      then Inr (m[nat c := array_set (m ! nat c) r (Some day)])
      else Inl TypeError)"

text \<open>\<open>forEach\<close> with a body that may throw: the first exception ends the loop.\<close>

fun forEach :: "('s \<Rightarrow> 'a \<Rightarrow> error + 's) \<Rightarrow> 'a list \<Rightarrow> 's \<Rightarrow> error + 's" where
  "forEach f [] s = Inr s"
| "forEach f (x # xs) s = (case f s x of Inl e \<Rightarrow> Inl e | Inr s' \<Rightarrow> forEach f xs s')"

text \<open>
  The body of the loop, for one record, on the grid built so far. An invalid date fails
  both comparisons, so inside the test the date has a time value \<open>t\<close>. Time values are
  integers below \<open>2^53\<close> in magnitude, and inside the test the difference \<open>today - t\<close> is
  not negative and about a year of milliseconds at most, so the difference and the floor
  of its quotient by 604800000 are exact in JavaScript's double arithmetic: they are the
  integer difference and \<open>div\<close>.
\<close>

definition placeDay :: "host \<Rightarrow> int \<Rightarrow> Date \<Rightarrow> matrix \<Rightarrow> ContributionDay \<Rightarrow> error + matrix" where
  "placeDay h today oneYearAgo m day =
     (let d = Date_parse h (date day)
      in if date_ge d oneYearAgo \<and> date_le d (Some today) then
           (case d of
              None \<Rightarrow> Inr m
            | Some t \<Rightarrow>
                (let weekIndex = (today - t) div (7 * 24 * 60 * 60 * 1000);
                     dayIndex = getDay h t
                 in if weekIndex < 52 then matrix_set m (51 - weekIndex) dayIndex day
                    else Inr m))
         else Inr m)"

text \<open>
  \<^verbatim>\<open>Array(52).fill(null).map(() => Array(7).fill(null))\<close> makes 52 separate columns of 7
  \<open>null\<close>s, so a write to one column leaves the others alone, as with a list of lists.
  \<open>new Date()\<close> reads the host's clock; \<open>new Date(today)\<close> copies its time value.
\<close>

definition getContributionMatrix :: "host \<Rightarrow> ContributionDay list \<Rightarrow> error + matrix" where
  "getContributionMatrix h contributionData =
     (let m = replicate 52 (replicate 7 None);
          today = now h;
          oneYearAgo = setFullYear h (Some today) (getFullYear h today - 1)
      in forEach (placeDay h today oneYearAgo) contributionData m)"

subsection \<open>Notions for stating the properties\<close>

text \<open>
  The values of the function's local variables \<open>oneYearAgo\<close> and \<open>weekIndex\<close>, and its
  two tests, as functions of the host and of the parsed date \<open>t\<close> of a record.
\<close>

definition the_oneYearAgo :: "host \<Rightarrow> Date" where
  "the_oneYearAgo h = setFullYear h (Some (now h)) (getFullYear h (now h) - 1)"

definition the_weekIndex :: "host \<Rightarrow> int \<Rightarrow> int" where
  "the_weekIndex h t = (now h - t) div (7 * 24 * 60 * 60 * 1000)"

definition inWindow :: "host \<Rightarrow> int \<Rightarrow> bool" where
  "inWindow h t = (date_ge (Some t) (the_oneYearAgo h) \<and> date_le (Some t) (Some (now h)))"

text \<open>
  The cell (column, row) a record is written to: none when its date does not parse, fails
  the window test or fails \<open>weekIndex < 52\<close>.
\<close>

definition slot :: "host \<Rightarrow> ContributionDay \<Rightarrow> (nat \<times> nat) option" where
  "slot h day =
     (case Date_parse h (date day) of
        None \<Rightarrow> None
      | Some t \<Rightarrow>
          if inWindow h t \<and> the_weekIndex h t < 52
          then Some (nat (51 - the_weekIndex h t), nat (getDay h t))
          else None)"

text \<open>Writing a record into a cell of a grid, and what one record does to a grid.\<close>

definition put :: "matrix \<Rightarrow> nat \<times> nat \<Rightarrow> ContributionDay \<Rightarrow> matrix" where
  "put m p day = m[fst p := (m ! fst p)[snd p := Some day]]"

definition place :: "host \<Rightarrow> matrix \<Rightarrow> ContributionDay \<Rightarrow> matrix" where
  "place h m day = (case slot h day of None \<Rightarrow> m | Some p \<Rightarrow> put m p day)"

definition grid :: "host \<Rightarrow> ContributionDay list \<Rightarrow> matrix" where
  "grid h recs = foldl (place h) (replicate 52 (replicate 7 None)) recs"

text \<open>A grid of 52 columns of 7 cells.\<close>

definition shaped :: "matrix \<Rightarrow> bool" where
  "shaped m = (length m = 52 \<and> list_all (\<lambda>col. length col = 7) m)"


subsection \<open>Concrete hosts\<close>

text \<open>
  A parser for the date-only ISO form \<open>YYYY-MM-DD\<close>, which ECMAScript reads as midnight
  UTC of that day; this is the form of the \<open>date\<close> field in GitHub's contribution
  calendar. In the hosts below every other string is an invalid date.
\<close>

definition digitVal :: "char \<Rightarrow> int option" where
  "digitVal c =
     (let n = (of_char c :: nat)
      in if 48 \<le> n \<and> n \<le> 57 then Some (int n - 48) else None)"

definition digits :: "string \<Rightarrow> int option" where
  "digits s =
     foldl (\<lambda>acc c. case acc of None \<Rightarrow> None
                     | Some a \<Rightarrow> (case digitVal c of None \<Rightarrow> None | Some v \<Rightarrow> Some (10 * a + v)))
       (Some 0) s"

definition isoDate_parse :: "string \<Rightarrow> Date" where
  "isoDate_parse s =
     (if length s = 10 \<and> s ! 4 = CHR ''-'' \<and> s ! 7 = CHR ''-'' then
        (case digits (take 4 s) of None \<Rightarrow> None
         | Some y \<Rightarrow>
        (case digits (take 2 (drop 5 s)) of None \<Rightarrow> None
         | Some mo \<Rightarrow>
        (case digits (drop 8 s) of None \<Rightarrow> None
         | Some d \<Rightarrow>
            (let l = leapFlag y
             in if 1 \<le> mo \<and> mo \<le> 12 \<and> 1 \<le> d \<and> d \<le> monthStart l mo - monthStart l (mo - 1)
                then TimeClip (MakeDate (MakeDay y (mo - 1) d) 0)
                else None))))
      else None)"

text \<open>A host whose local time is at a fixed offset from UTC, reading the clock at \<open>t\<close>.\<close>

definition fixedZoneHost :: "int \<Rightarrow> int \<Rightarrow> host" where
  "fixedZoneHost off t =
     \<lparr> now = t, Date_parse = isoDate_parse, LocalTZA_utc = (\<lambda>_. off), LocalTZA_local = (\<lambda>_. off) \<rparr>"

section \<open>The classifier\<close>

lemma tierClass_inj: "tierClass a = tierClass b \<Longrightarrow> a = b"
  by (cases a; cases b; simp add: tierClass_def)

section \<open>Calendar arithmetic\<close>

lemma div_succ:
  fixes a k :: int
  assumes "0 < k"
  shows "(a + 1) div k = a div k + (if (a + 1) mod k = 0 then 1 else 0)"
proof -
  define q where "q = a div k"
  define r where "r = a mod k"
  have a: "a + 1 = k * q + (r + 1)" by (simp add: q_def r_def)
  have r: "0 \<le> r" "r < k" using assms by (simp_all add: r_def)
  have d: "(a + 1) div k = q + (r + 1) div k"
    unfolding a using assms by simp
  have m: "(a + 1) mod k = (r + 1) mod k"
    unfolding a by simp
  show ?thesis
  proof (cases "r + 1 = k")
    case True
    then show ?thesis using d m assms by (simp add: q_def)
  next
    case False
    then have "r + 1 < k" using r by simp
    then show ?thesis using d m r by (simp add: q_def)
  qed
qed

lemma mod4_shift: "((y::int) - 1968) mod 4 = y mod 4"
  using mod_mult_self2 [of y 4 "-492"] by simp

lemma mod100_shift: "((y::int) - 1900) mod 100 = y mod 100"
  using mod_mult_self2 [of y 100 "-19"] by simp

lemma mod400_shift: "((y::int) - 1600) mod 400 = y mod 400"
  using mod_mult_self2 [of y 400 "-4"] by simp

lemma mod100_mod4: "(y::int) mod 100 = 0 \<Longrightarrow> y mod 4 = 0"
  using mod_mod_cancel [of 4 100 y] by simp

lemma mod400_mod100: "(y::int) mod 400 = 0 \<Longrightarrow> y mod 100 = 0"
  using mod_mod_cancel [of 100 400 y] by simp

text \<open>The closed formula for the first day of a year adds up the lengths of the years.\<close>

lemma DayFromYear_Suc: "DayFromYear (y + 1) = DayFromYear y + DaysInYear y"
proof -
  have a: "(y + 1 - 1969) div 4 = (y - 1969) div 4 + (if y mod 4 = 0 then 1 else 0)"
    using div_succ [of 4 "y - 1969"] mod4_shift [of y] by (simp add: algebra_simps)
  have b: "(y + 1 - 1901) div 100 = (y - 1901) div 100 + (if y mod 100 = 0 then 1 else 0)"
    using div_succ [of 100 "y - 1901"] mod100_shift [of y] by (simp add: algebra_simps)
  have c: "(y + 1 - 1601) div 400 = (y - 1601) div 400 + (if y mod 400 = 0 then 1 else 0)"
    using div_succ [of 400 "y - 1601"] mod400_shift [of y] by (simp add: algebra_simps)
  show ?thesis
    unfolding DayFromYear_def DaysInYear_def a b c
    using mod100_mod4 [of y] mod400_mod100 [of y] by auto
qed

lemma DaysInYear_cases: "DaysInYear y = 365 \<or> DaysInYear y = 366"
  by (simp add: DaysInYear_def)

lemma MonthFromTime_range: "0 \<le> MonthFromTime t \<and> MonthFromTime t \<le> 11"
  by (simp add: MonthFromTime_def MonthFromDay_def)



text \<open>
  The year found from a day number is the one the day is in, as ECMAScript defines
  \<open>YearFromTime\<close>, and it is the only such year.
\<close>

lemma DayFromYear_approx:
  "146097 * (y - 1970) - 506 \<le> 400 * DayFromYear y \<and>
   400 * DayFromYear y \<le> 146097 * (y - 1970) + 589"
proof -
  define a where "a = (y - 1969) div 4"
  define b where "b = (y - 1901) div 100"
  define c where "c = (y - 1601) div 400"
  have a: "4 * a \<le> y - 1969" "y - 1969 \<le> 4 * a + 3"
    using div_mult_mod_eq [of "y - 1969" 4] pos_mod_bound [of 4 "y - 1969"]
      pos_mod_sign [of 4 "y - 1969"] by (simp_all add: a_def)
  have b: "100 * b \<le> y - 1901" "y - 1901 \<le> 100 * b + 99"
    using div_mult_mod_eq [of "y - 1901" 100] pos_mod_bound [of 100 "y - 1901"]
      pos_mod_sign [of 100 "y - 1901"] by (simp_all add: b_def)
  have c: "400 * c \<le> y - 1601" "y - 1601 \<le> 400 * c + 399"
    using div_mult_mod_eq [of "y - 1601" 400] pos_mod_bound [of 400 "y - 1601"]
      pos_mod_sign [of 400 "y - 1601"] by (simp_all add: c_def)
  have "DayFromYear y = 365 * (y - 1970) + a - b + c"
    by (simp add: DayFromYear_def a_def b_def c_def)
  then show ?thesis using a b c by simp
qed

lemma DayFromYear_add: "DayFromYear y + 365 * int n \<le> DayFromYear (y + int n)"
proof (induction n)
  case 0
  show ?case by simp
next
  case (Suc n)
  have "DayFromYear (y + int (Suc n)) = DayFromYear (y + int n) + DaysInYear (y + int n)"
    using DayFromYear_Suc [of "y + int n"] by (simp add: algebra_simps)
  then show ?case using Suc DaysInYear_cases [of "y + int n"] by auto
qed

lemma DayFromYear_mono: "y \<le> y' \<Longrightarrow> DayFromYear y \<le> DayFromYear y'"
  using DayFromYear_add [of y "nat (y' - y)"] by simp

lemma DayFromYear_less: "DayFromYear y < DayFromYear y' \<Longrightarrow> y < y'"
  using DayFromYear_mono [of y' y] by (cases "y < y'") auto

lemma YearFromDay_bounds:
  "DayFromYear (YearFromDay d) \<le> d \<and> d < DayFromYear (YearFromDay d + 1)"
proof -
  define y where "y = 1970 + (400 * d) div 146097"
  have e: "146097 * (y - 1970) \<le> 400 * d" "400 * d < 146097 * (y - 1970) + 146097"
    using div_mult_mod_eq [of "400 * d" 146097] pos_mod_bound [of 146097 "400 * d"]
      pos_mod_sign [of 146097 "400 * d"] by (simp_all add: y_def)
  have lo: "DayFromYear (y - 1) \<le> d"
    using DayFromYear_approx [of "y - 1"] e by simp
  have hi: "d < DayFromYear (y + 2)"
    using DayFromYear_approx [of "y + 2"] e by simp
  have s: "y + 1 + 1 = y + 2" "y - 1 + 1 = y" by simp_all
  show ?thesis
    unfolding YearFromDay_def y_def [symmetric] Let_def
    using lo hi by (auto simp: s)
qed

lemma YearFromDay_unique:
  assumes "DayFromYear y \<le> d" "d < DayFromYear (y + 1)"
  shows "YearFromDay d = y"
proof -
  have b: "DayFromYear (YearFromDay d) \<le> d" "d < DayFromYear (YearFromDay d + 1)"
    using YearFromDay_bounds [of d] by simp_all
  have "DayFromYear y < DayFromYear (YearFromDay d + 1)" using assms(1) b(2) by simp
  then have "y < YearFromDay d + 1" by (rule DayFromYear_less)
  moreover have "DayFromYear (YearFromDay d) < DayFromYear (y + 1)" using assms(2) b(1) by simp
  then have "YearFromDay d < y + 1" by (rule DayFromYear_less)
  ultimately show ?thesis by simp
qed

lemma DaysInYear_leapFlag: "DaysInYear y = 365 + leapFlag y"
  using DaysInYear_cases [of y] by (auto simp: leapFlag_def)

lemma Day_MakeDate: "0 \<le> tw \<Longrightarrow> tw < msPerDay \<Longrightarrow> Day (MakeDate d tw) = d"
  by (simp add: Day_def MakeDate_def msPerDay_def)

lemma TimeWithinDay_MakeDate:
  "0 \<le> tw \<Longrightarrow> tw < msPerDay \<Longrightarrow> TimeWithinDay (MakeDate d tw) = tw"
  by (simp add: TimeWithinDay_def MakeDate_def msPerDay_def)

lemma TimeWithinDay_range: "0 \<le> TimeWithinDay t \<and> TimeWithinDay t < msPerDay"
  by (simp add: TimeWithinDay_def msPerDay_def)

lemma DayWithinYear_range:
  "0 \<le> DayWithinYear t \<and> DayWithinYear t < 365 + InLeapYear t"
proof -
  define y where "y = YearFromTime t"
  have b: "DayFromYear y \<le> Day t \<and> Day t < DayFromYear (y + 1)"
    unfolding y_def YearFromTime_def by (rule YearFromDay_bounds)
  have s: "DayFromYear (y + 1) = DayFromYear y + DaysInYear y" by (rule DayFromYear_Suc)
  have l: "DaysInYear y = 365 + InLeapYear t"
    using DaysInYear_cases [of y] by (auto simp: InLeapYear_def leapFlag_def y_def)
  have "DayWithinYear t = Day t - DayFromYear y" by (simp add: DayWithinYear_def y_def)
  then show ?thesis using b s l by linarith
qed

lemma MonthFromDay_start:
  assumes "0 \<le> d" "d < 365 + l"
  shows "monthStart l (MonthFromDay l d) \<le> d \<and> d < monthStart l (MonthFromDay l d + 1)"
  using assms by (simp add: MonthFromDay_def monthStart_def)

lemma DateFromTime_range:
  "1 \<le> DateFromTime t \<and>
   DateFromTime t \<le> monthStart (InLeapYear t) (MonthFromTime t + 1)
                      - monthStart (InLeapYear t) (MonthFromTime t)"
  using DayWithinYear_range [of t] MonthFromDay_start [of "DayWithinYear t" "InLeapYear t"]
  by (simp add: DateFromTime_def MonthFromTime_def)

lemma month_cases:
  assumes "0 \<le> m" "m \<le> 11"
  shows "m = 0 \<or> m = 1 \<or> m = 2 \<or> m = 3 \<or> m = 4 \<or> m = 5 \<or> m = 6 \<or> m = 7 \<or> m = 8
      \<or> m = 9 \<or> m = 10 \<or> m = (11::int)"
  using assms by arith

lemma MonthFromDay_unique:
  assumes "0 \<le> l" "l \<le> 1" "0 \<le> m" "m \<le> 11"
    and "monthStart l m \<le> w" "w < monthStart l (m + 1)"
  shows "MonthFromDay l w = m"
  using month_cases [OF assms(3,4)] assms(1,2,5,6)
  by (elim disjE) (simp_all add: monthStart_def MonthFromDay_def)

lemma monthStart_bounds:
  assumes "0 \<le> l" "l \<le> 1" "0 \<le> m" "m \<le> 11"
  shows "0 \<le> monthStart l m \<and> monthStart l (m + 1) \<le> 365 + l"
  using month_cases [OF assms(3,4)] assms(1,2)
  by (elim disjE) (simp_all add: monthStart_def)

text \<open>
  A day made from a year, a month and a day of that month reads back as that year,
  month and day.
\<close>

lemma MakeDay_read_back:
  assumes m: "0 \<le> m" "m \<le> 11"
    and dt: "1 \<le> dt" "dt \<le> monthStart (leapFlag y) (m + 1) - monthStart (leapFlag y) m"
    and tw: "0 \<le> tw" "tw < msPerDay"
  defines "u \<equiv> MakeDate (MakeDay y m dt) tw"
  shows "YearFromTime u = y \<and> MonthFromTime u = m \<and> DateFromTime u = dt"
proof -
  have mm: "m div 12 = 0" "m mod 12 = m" using m by simp_all
  define w where "w = monthStart (leapFlag y) m + dt - 1"
  have D: "Day u = DayFromYear y + w"
    using tw by (simp add: u_def Day_MakeDate MakeDay_def mm leapFlag_def w_def)
  have l: "0 \<le> leapFlag y" "leapFlag y \<le> 1" by (simp_all add: leapFlag_def)
  have ms: "monthStart (leapFlag y) m \<le> w" "w < monthStart (leapFlag y) (m + 1)"
    using dt by (simp_all add: w_def)
  have w: "0 \<le> w" "w < 365 + leapFlag y"
    using monthStart_bounds [OF l m] ms by linarith+
  have s: "DayFromYear (y + 1) = DayFromYear y + DaysInYear y" by (rule DayFromYear_Suc)
  have Y: "YearFromTime u = y"
    unfolding YearFromTime_def D
    using w DaysInYear_leapFlag [of y] s
    by (intro YearFromDay_unique) linarith+
  have L: "InLeapYear u = leapFlag y" by (simp add: InLeapYear_def Y leapFlag_def)
  have W: "DayWithinYear u = w" by (simp add: DayWithinYear_def Y D)
  have M: "MonthFromTime u = m"
    unfolding MonthFromTime_def W L
    by (rule MonthFromDay_unique [OF l m ms])
  have "DateFromTime u = dt"
    by (simp add: DateFromTime_def W L M w_def)
  then show ?thesis using Y M by simp
qed

text \<open>
  What \<open>setFullYear(getFullYear() - 1)\<close> does to a local time: the year is one less and
  the time within the day is kept; the month and the day of the month are kept too, but
  29 February becomes 1 March.
\<close>

lemma leap_prev:
  assumes "DaysInYear y = 366"
  shows "DaysInYear (y - 1) = 365"
proof -
  have "y mod 4 = 0" using assms by (simp add: DaysInYear_def split: if_splits)
  then have "(y - 1) mod 4 \<noteq> 0" by presburger
  then show ?thesis by (simp add: DaysInYear_def)
qed

lemma setFullYear_prev_civil:
  fixes t :: int
  defines "y \<equiv> YearFromTime t" and "m \<equiv> MonthFromTime t" and "dt \<equiv> DateFromTime t"
  defines "u \<equiv> MakeDate (MakeDay (y - 1) m dt) (TimeWithinDay t)"
  shows "YearFromTime u = y - 1 \<and> TimeWithinDay u = TimeWithinDay t
     \<and> (if m = 1 \<and> dt = 29 then MonthFromTime u = 2 \<and> DateFromTime u = 1
         else MonthFromTime u = m \<and> DateFromTime u = dt)"
proof -
  have tw: "0 \<le> TimeWithinDay t" "TimeWithinDay t < msPerDay"
    using TimeWithinDay_range [of t] by simp_all
  have m: "0 \<le> m" "m \<le> 11" using MonthFromTime_range [of t] by (simp_all add: m_def)
  have l: "InLeapYear t = leapFlag y" by (simp add: InLeapYear_def leapFlag_def y_def)
  have dt: "1 \<le> dt" "dt \<le> monthStart (leapFlag y) (m + 1) - monthStart (leapFlag y) m"
    using DateFromTime_range [of t] by (simp_all add: dt_def m_def l)
  have T: "TimeWithinDay u = TimeWithinDay t"
    unfolding u_def using tw by (rule TimeWithinDay_MakeDate)
  have lf: "0 \<le> leapFlag y" "leapFlag y \<le> 1" "0 \<le> leapFlag (y - 1)" "leapFlag (y - 1) \<le> 1"
    by (simp_all add: leapFlag_def)
  show ?thesis
  proof (cases "m = 1 \<and> dt = 29")
    case True
    have "leapFlag y = 1" using dt True lf by (simp add: monthStart_def)
    then have p: "DaysInYear (y - 1) = 365"
      using leap_prev [of y] by (simp add: leapFlag_def split: if_splits)
    have "MakeDay (y - 1) m dt = MakeDay (y - 1) 2 1"
      using True p by (simp add: MakeDay_def monthStart_def leapFlag_def)
    then have "u = MakeDate (MakeDay (y - 1) 2 1) (TimeWithinDay t)" by (simp add: u_def)
    then show ?thesis
      using MakeDay_read_back [of 2 1 "y - 1" "TimeWithinDay t"] tw True T lf
      by (simp add: monthStart_def)
  next
    case False
    have "dt \<le> monthStart (leapFlag (y - 1)) (m + 1) - monthStart (leapFlag (y - 1)) m"
      using month_cases [OF m] dt False lf
      by (elim disjE) (simp_all add: monthStart_def)
    then have "YearFromTime u = y - 1 \<and> MonthFromTime u = m \<and> DateFromTime u = dt"
      unfolding u_def by (rule MakeDay_read_back [OF m dt(1) _ tw])
    then show ?thesis using False T by auto
  qed
qed

text \<open>Day 0, 1 January 1970, was a Thursday; the day of the week advances with the day.\<close>

lemma WeekDay_epoch: "WeekDay 0 = 4"
  by (simp add: WeekDay_def Day_def)

lemma WeekDay_next: "WeekDay (t + msPerDay) = (WeekDay t + 1) mod 7"
proof -
  have "(t + msPerDay) div msPerDay = t div msPerDay + 1"
    by (simp add: msPerDay_def)
  then show ?thesis by (simp add: WeekDay_def Day_def mod_simps algebra_simps)
qed

section \<open>The grid builder\<close>

lemma getDay_range: "0 \<le> getDay h t \<and> getDay h t \<le> 6"
  by (simp add: getDay_def WeekDay_def)

lemma weekIndex_nonneg: "t \<le> now h \<Longrightarrow> 0 \<le> the_weekIndex h t"
  by (simp add: the_weekIndex_def pos_imp_zdiv_nonneg_iff)

lemma slot_range:
  assumes "slot h day = Some (c, r)"
  shows "c < 52 \<and> r < 7"
proof -
  from assms obtain t where le: "t \<le> now h" and w: "the_weekIndex h t < 52"
    and c: "c = nat (51 - the_weekIndex h t)" and r: "r = nat (getDay h t)"
    by (auto simp: slot_def inWindow_def date_le_def split: option.splits if_splits)
  have "0 \<le> the_weekIndex h t" using le by (rule weekIndex_nonneg)
  then have "c < 52" using c by simp
  moreover have "r < 7" using getDay_range [of h t] r by arith
  ultimately show ?thesis by simp
qed

lemma shaped_init: "shaped (replicate 52 (replicate 7 None))"
  by (simp add: shaped_def list_all_iff)

lemma shaped_put: "shaped m \<Longrightarrow> fst p < 52 \<Longrightarrow> shaped (put m p day)"
  by (auto simp: shaped_def put_def list_all_length nth_list_update)

lemma shaped_place:
  assumes "shaped m"
  shows "shaped (place h m day)"
proof (cases "slot h day")
  case None
  then show ?thesis using assms by (simp add: place_def)
next
  case (Some p)
  then have "fst p < 52" using slot_range [of h day "fst p" "snd p"] by simp
  then show ?thesis using Some assms by (simp add: place_def shaped_put)
qed

lemma shaped_nth: "shaped m \<Longrightarrow> c < 52 \<Longrightarrow> length (m ! c) = 7"
  by (simp add: shaped_def list_all_length)

lemma placeDay_place:
  assumes "shaped m"
  shows "placeDay h (now h) (the_oneYearAgo h) m day = Inr (place h m day)"
proof (cases "slot h day")
  case None
  then show ?thesis
    by (auto simp: placeDay_def place_def slot_def inWindow_def the_weekIndex_def Let_def
        split: option.splits if_splits)
next
  case (Some p)
  obtain c r where p: "p = (c, r)" by (cases p)
  from Some p obtain t where t: "Date_parse h (date day) = Some t"
    and w: "inWindow h t" "the_weekIndex h t < 52"
    and c: "c = nat (51 - the_weekIndex h t)" and r: "r = nat (getDay h t)"
    by (auto simp: slot_def split: option.splits if_splits)
  from w have le: "t \<le> now h" by (simp add: inWindow_def date_le_def)
  have w0: "0 \<le> the_weekIndex h t" using le by (rule weekIndex_nonneg)
  have cr: "c < 52" "r < 7" using slot_range Some p by auto
  have len: "length m = 52" "length (m ! c) = 7"
    using assms cr by (simp_all add: shaped_def shaped_nth)
  have g: "0 \<le> getDay h t" using getDay_range by simp
  have "matrix_set m (51 - the_weekIndex h t) (getDay h t) day = Inr (put m (c, r) day)"
    using w0 w cr len g c r by (simp add: matrix_set_def array_set_def put_def)
  then show ?thesis using t w Some p
    by (simp add: placeDay_def place_def inWindow_def the_weekIndex_def Let_def)
qed

lemma shaped_foldl: "shaped m \<Longrightarrow> shaped (foldl (place h) m recs)"
  by (induction recs arbitrary: m) (simp_all add: shaped_place)

lemma forEach_place:
  "shaped m \<Longrightarrow> forEach (placeDay h (now h) (the_oneYearAgo h)) recs m = Inr (foldl (place h) m recs)"
  by (induction recs arbitrary: m) (simp_all add: placeDay_place shaped_place)

lemma getContributionMatrix_grid: "getContributionMatrix h recs = Inr (grid h recs)"
  using forEach_place [OF shaped_init]
  by (simp add: getContributionMatrix_def grid_def the_oneYearAgo_def Let_def)

lemma shaped_grid: "shaped (grid h recs)"
  by (simp add: grid_def shaped_foldl shaped_init)

lemma grid_snoc: "grid h (recs @ [day]) = place h (grid h recs) day"
  by (simp add: grid_def)

lemma put_nth:
  "shaped m \<Longrightarrow> c < 52 \<Longrightarrow> r < 7 \<Longrightarrow> c' < 52 \<Longrightarrow> r' < 7 \<Longrightarrow>
   put m (c, r) day ! c' ! r' = (if c' = c \<and> r' = r then Some day else m ! c' ! r')"
  by (cases "c' = c") (auto simp: put_def shaped_def list_all_length)

lemma grid_cell:
  assumes "c < 52" "r < 7"
  shows "grid h recs ! c ! r =
      (case filter (\<lambda>day. slot h day = Some (c, r)) recs of
         [] \<Rightarrow> None | ds \<Rightarrow> Some (last ds))"
proof (induction recs rule: rev_induct)
  case Nil
  show ?case using assms by (simp add: grid_def)
next
  case (snoc day recs)
  show ?case
  proof (cases "slot h day")
    case None
    then show ?thesis using snoc by (simp add: grid_snoc place_def)
  next
    case (Some p)
    obtain c' r' where p: "p = (c', r')" by (cases p)
    have rg: "c' < 52" "r' < 7" using slot_range Some p by auto
    show ?thesis using snoc Some p put_nth [OF shaped_grid rg assms, of h recs day]
      by (auto simp: grid_snoc place_def split: list.splits)
  qed
qed

lemma shaped_map_length: "shaped m \<Longrightarrow> map length m = replicate 52 7"
  using replicate_length_same [of "map length m" 7]
  by (auto simp: shaped_def list_all_iff)

lemma shaped_concat_length: "shaped m \<Longrightarrow> length (concat m) = 364"
  by (simp add: length_concat shaped_map_length sum_list_replicate)

lemma shaped_concat_cell:
  assumes "shaped m" "cell \<in> set (concat m)"
  shows "\<exists>c r. c < 52 \<and> r < 7 \<and> cell = m ! c ! r"
proof -
  from assms(2) obtain col where col: "col \<in> set m" "cell \<in> set col" by auto
  then obtain c where c: "c < length m" "col = m ! c" by (auto simp: in_set_conv_nth)
  from col(2) obtain r where r: "r < length col" "cell = col ! r" by (auto simp: in_set_conv_nth)
  have "length col = 7" using assms(1) col(1) by (simp add: shaped_def list_all_iff)
  then show ?thesis using c r assms(1) by (auto simp: shaped_def)
qed

lemma grid_cell_Some:
  assumes "Some day \<in> set (concat (grid h recs))"
  shows "day \<in> set recs \<and> slot h day \<noteq> None"
proof -
  obtain c r where cr: "c < 52" "r < 7" "Some day = grid h recs ! c ! r"
    using shaped_concat_cell [OF shaped_grid assms] by blast
  define ds where "ds = filter (\<lambda>d. slot h d = Some (c, r)) recs"
  have "ds \<noteq> []" "day = last ds"
    using cr grid_cell [of c r h recs] by (auto simp: ds_def split: list.splits)
  then have "day \<in> set ds" by simp
  then show ?thesis by (auto simp: ds_def)
qed

lemma slot_None_place: "slot h day = None \<Longrightarrow> place h m day = m"
  by (simp add: place_def)

lemma placeDay_dropped:
  "slot h day = None \<Longrightarrow> placeDay h (now h) (the_oneYearAgo h) m day = Inr m"
  by (auto simp: placeDay_def slot_def inWindow_def the_weekIndex_def Let_def
        split: option.splits if_splits)

lemma grid_all_dropped: "\<forall>day\<in>set recs. slot h day = None \<Longrightarrow> grid h recs = replicate 52 (replicate 7 None)"
  by (induction recs rule: rev_induct) (simp_all add: grid_snoc place_def, simp add: grid_def)






text \<open>
  In local time, \<open>oneYearAgo\<close> is the clock reading with the year one less and the same
  time of day, month and day of the month (1 March for 29 February), on a host where a
  local time converted to UTC and back is itself, as with a fixed offset.
\<close>

lemma oneYearAgo_civil:
  fixes h :: host
  defines "t \<equiv> LocalTime h (now h)"
  assumes "the_oneYearAgo h = Some ya"
    and "\<forall>x. LocalTime h (UTC h x) = x"
  shows "YearFromTime (LocalTime h ya) = YearFromTime t - 1
     \<and> TimeWithinDay (LocalTime h ya) = TimeWithinDay t
     \<and> (if MonthFromTime t = 1 \<and> DateFromTime t = 29
         then MonthFromTime (LocalTime h ya) = 2 \<and> DateFromTime (LocalTime h ya) = 1
         else MonthFromTime (LocalTime h ya) = MonthFromTime t
            \<and> DateFromTime (LocalTime h ya) = DateFromTime t)"
proof -
  define u where "u = MakeDate (MakeDay (YearFromTime t - 1) (MonthFromTime t) (DateFromTime t))
                        (TimeWithinDay t)"
  have "TimeClip (UTC h u) = Some ya"
    using assms(2) by (simp add: the_oneYearAgo_def setFullYear_def getFullYear_def Let_def u_def t_def)
  then have "ya = UTC h u" by (simp add: TimeClip_def split: if_splits)
  then have e: "LocalTime h ya = u" using assms(3) by simp
  show ?thesis unfolding e u_def by (rule setFullYear_prev_civil)
qed

lemma fixedZoneHost_round_trip: "LocalTime (fixedZoneHost off t) (UTC (fixedZoneHost off t) x) = x"
  by (simp add: LocalTime_def UTC_def fixedZoneHost_def)

section \<open>Further facts about the grid\<close>


lemma cellIntensity_None: "cellIntensity None = tierClass NoneTier"
  by (simp add: cellIntensity_def getCommitIntensity_def tierClass_def)

lemma grid_cell_last:
  assumes "c < 52" "r < 7" "filter (\<lambda>day. slot h day = Some (c, r)) recs \<noteq> []"
  shows "grid h recs ! c ! r = Some (last (filter (\<lambda>day. slot h day = Some (c, r)) recs))"
  using grid_cell [OF assms(1,2), of h recs] assms(3)
  by (cases "filter (\<lambda>day. slot h day = Some (c, r)) recs") simp_all

lemma div_between:
  fixes x k q :: int
  assumes "0 < k" "q * k \<le> x" "x < (q + 1) * k"
  shows "x div k = q"
proof -
  define r where "r = x - q * k"
  have r: "0 \<le> r" "r < k" using assms by (simp_all add: r_def algebra_simps)
  have "x = q * k + r" by (simp add: r_def)
  then have "x div k = q + r div k" using assms(1) by simp
  then show ?thesis using r by simp
qed

lemma shaped_nth_mem:
  assumes "shaped m" "c < 52" "r < 7"
  shows "m ! c ! r \<in> set (concat m)"
proof -
  have "m ! c \<in> set m" using assms(1,2) by (simp add: shaped_def)
  moreover have "m ! c ! r \<in> set (m ! c)" using shaped_nth [OF assms(1,2)] assms(3) by simp
  ultimately show ?thesis by auto
qed

lemma the_oneYearAgo_cong:
  assumes "now h1 = now h2" "LocalTZA_utc h1 = LocalTZA_utc h2" "LocalTZA_local h1 = LocalTZA_local h2"
  shows "the_oneYearAgo h1 = the_oneYearAgo h2"
  using assms
  by (simp add: the_oneYearAgo_def setFullYear_def getFullYear_def LocalTime_def UTC_def)

lemma slot_cong:
  assumes "now h1 = now h2" "LocalTZA_utc h1 = LocalTZA_utc h2" "LocalTZA_local h1 = LocalTZA_local h2"
    and "Date_parse h1 (date d) = Date_parse h2 (date d)"
  shows "slot h1 d = slot h2 d"
proof -
  have a: "inWindow h1 = inWindow h2"
    using assms(1) the_oneYearAgo_cong [OF assms(1-3)] by (simp add: fun_eq_iff inWindow_def)
  have b: "the_weekIndex h1 = the_weekIndex h2"
    using assms(1) by (simp add: fun_eq_iff the_weekIndex_def)
  have c: "getDay h1 = getDay h2"
    using assms(2) by (simp add: fun_eq_iff getDay_def LocalTime_def)
  show ?thesis unfolding slot_def a b c assms(4) ..
qed





text \<open>
  \<open>getDay\<close> is the day of the week in the host's local time. A date-only string is
  midnight UTC, so on a host at UTC the record of Saturday 2024-06-15 is in row 6, and on
  a host five hours west of UTC, where that instant is Friday evening, it is in row 5.
\<close>

lemma row_at_utc:
  "slot (fixedZoneHost 0 1718413200000) \<lparr>contributionCount = 5, date = ''2024-06-15''\<rparr>
     = Some (51, 6)"
  by code_simp

lemma row_west_of_utc:
  "slot (fixedZoneHost (- 18000000) 1718413200000) \<lparr>contributionCount = 5, date = ''2024-06-15''\<rparr>
     = Some (51, 5)"
  by code_simp

section \<open>The properties\<close>

text \<open>
  Claim C2. On every non-negative count \<open>getCommitIntensity\<close> returns the classes of exactly
  one of the five tiers, the one the specification's thresholds give: 0 is None, 1 to 3
  Low, 4 to 6 Medium, 7 to 9 High and more than 9 VeryHigh. The classes of the five tiers
  differ, so the ranges are disjoint, and they cover every non-negative count.
\<close>

theorem getCommitIntensity_five_tiers:
  "getCommitIntensity (int n) = tierClass (classify_spec n)
   \<and> (\<forall>T. getCommitIntensity (int n) = tierClass T \<longrightarrow> T = classify_spec n)
   \<and> ((getCommitIntensity (int n) = tierClass NoneTier) = (n = 0))
   \<and> ((getCommitIntensity (int n) = tierClass Low) = (1 \<le> n \<and> n \<le> 3))
   \<and> ((getCommitIntensity (int n) = tierClass Medium) = (4 \<le> n \<and> n \<le> 6))
   \<and> ((getCommitIntensity (int n) = tierClass High) = (7 \<le> n \<and> n \<le> 9))
   \<and> ((getCommitIntensity (int n) = tierClass VeryHigh) = (9 < n))"
proof -
  have e: "getCommitIntensity (int n) = tierClass (classify_spec n)"
    by (simp add: getCommitIntensity_def tierClass_def classify_spec_def)
  have u: "\<And>T. (tierClass (classify_spec n) = tierClass T) = (classify_spec n = T)"
    using tierClass_inj by blast
  show ?thesis unfolding e u
    by (auto simp: classify_spec_def)
qed

text \<open>An instance: the counts on both sides of each boundary.\<close>

theorem getCommitIntensity_five_tiers_witness:
  "getCommitIntensity 0 = tierClass NoneTier \<and> getCommitIntensity 1 = tierClass Low
   \<and> getCommitIntensity 3 = tierClass Low \<and> getCommitIntensity 4 = tierClass Medium
   \<and> getCommitIntensity 6 = tierClass Medium \<and> getCommitIntensity 7 = tierClass High
   \<and> getCommitIntensity 9 = tierClass High \<and> getCommitIntensity 10 = tierClass VeryHigh"
proof -
  have "(getCommitIntensity (int 0) = tierClass NoneTier) = ((0::nat) = 0)"
    using getCommitIntensity_five_tiers [of 0] by blast
  moreover have "(getCommitIntensity (int 1) = tierClass Low) = (1 \<le> (1::nat) \<and> (1::nat) \<le> 3)"
    using getCommitIntensity_five_tiers [of 1] by blast
  moreover have "(getCommitIntensity (int 3) = tierClass Low) = (1 \<le> (3::nat) \<and> (3::nat) \<le> 3)"
    using getCommitIntensity_five_tiers [of 3] by blast
  moreover have "(getCommitIntensity (int 4) = tierClass Medium) = (4 \<le> (4::nat) \<and> (4::nat) \<le> 6)"
    using getCommitIntensity_five_tiers [of 4] by blast
  moreover have "(getCommitIntensity (int 6) = tierClass Medium) = (4 \<le> (6::nat) \<and> (6::nat) \<le> 6)"
    using getCommitIntensity_five_tiers [of 6] by blast
  moreover have "(getCommitIntensity (int 7) = tierClass High) = (7 \<le> (7::nat) \<and> (7::nat) \<le> 9)"
    using getCommitIntensity_five_tiers [of 7] by blast
  moreover have "(getCommitIntensity (int 9) = tierClass High) = (7 \<le> (9::nat) \<and> (9::nat) \<le> 9)"
    using getCommitIntensity_five_tiers [of 9] by blast
  moreover have "(getCommitIntensity (int 10) = tierClass VeryHigh) = (9 < (10::nat))"
    using getCommitIntensity_five_tiers [of 10] by blast
  ultimately show ?thesis by simp
qed




text \<open>
  Claim C3. A record whose parsed date is before \<open>oneYearAgo\<close> (the clock reading with
  its local year set one back by \<open>setFullYear\<close>) or after the clock reading leaves the
  grid as it is, and is in no cell of the grid that is returned.
\<close>

theorem out_of_window_skipped:
  assumes "Date_parse h (date day) = Some t"
    and "(the_oneYearAgo h = Some ya \<and> t < ya) \<or> now h < t"
  shows "placeDay h (now h) (the_oneYearAgo h) m day = Inr m
     \<and> (\<exists>g. getContributionMatrix h recs = Inr g \<and> Some day \<notin> set (concat g))"
proof -
  have s: "slot h day = None"
    using assms by (auto simp: slot_def inWindow_def date_ge_def date_le_def)
  then have "Some day \<notin> set (concat (grid h recs))"
    using grid_cell_Some [of day h recs] by auto
  then show ?thesis using s by (simp add: getContributionMatrix_grid placeDay_dropped)
qed

text \<open>An instance: clock 2024-06-15 01:00 UTC, record of 2022-01-01.\<close>

theorem out_of_window_skipped_witness:
  "Date_parse (fixedZoneHost 0 1718413200000) (date \<lparr>contributionCount = 12, date = ''2022-01-01''\<rparr>)
      = Some 1640995200000
   \<and> the_oneYearAgo (fixedZoneHost 0 1718413200000) = Some 1686790800000
   \<and> (1640995200000::int) < 1686790800000
   \<and> (\<exists>g. getContributionMatrix (fixedZoneHost 0 1718413200000)
              [\<lparr>contributionCount = 5, date = ''2024-06-15''\<rparr>,
               \<lparr>contributionCount = 12, date = ''2022-01-01''\<rparr>] = Inr g
          \<and> Some \<lparr>contributionCount = 12, date = ''2022-01-01''\<rparr> \<notin> set (concat g))"
proof -
  let ?h = "fixedZoneHost 0 1718413200000"
  let ?d = "\<lparr>contributionCount = 12, date = ''2022-01-01''\<rparr>"
  have p: "Date_parse ?h (date ?d) = Some 1640995200000" by code_simp
  have y: "the_oneYearAgo ?h = Some 1686790800000" by code_simp
  have l: "(the_oneYearAgo ?h = Some 1686790800000 \<and> (1640995200000::int) < 1686790800000)
      \<or> now ?h < 1640995200000" using y by simp
  from out_of_window_skipped [OF p l] p y show ?thesis by simp
qed

text \<open>
  Claim C4. The function returns a grid on every input and never throws. A record whose
  date does not parse changes nothing. When every record is unparseable or outside the
  window, the grid is the initial one. On the empty input all 364 cells are empty, and an
  empty cell is drawn with the classes of the tier None.
\<close>

theorem never_raises:
  "(\<exists>g. getContributionMatrix h recs = Inr g)
   \<and> (Date_parse h (date day) = None \<longrightarrow>
        placeDay h (now h) (the_oneYearAgo h) m day = Inr m
        \<and> getContributionMatrix h (recs @ [day]) = getContributionMatrix h recs)
   \<and> ((\<forall>d\<in>set recs. case Date_parse h (date d) of None \<Rightarrow> True | Some t \<Rightarrow> \<not> inWindow h t)
        \<longrightarrow> getContributionMatrix h recs = Inr (replicate 52 (replicate 7 None)))
   \<and> (\<exists>g. getContributionMatrix h [] = Inr g \<and> length (concat g) = 364
          \<and> (\<forall>cell\<in>set (concat g). cell = None \<and> cellIntensity cell = tierClass NoneTier))"
proof -
  have a: "\<exists>g. getContributionMatrix h recs = Inr g"
    by (simp add: getContributionMatrix_grid)
  have b: "Date_parse h (date day) = None \<longrightarrow>
        placeDay h (now h) (the_oneYearAgo h) m day = Inr m
        \<and> getContributionMatrix h (recs @ [day]) = getContributionMatrix h recs"
    by (simp add: getContributionMatrix_grid grid_snoc place_def slot_def placeDay_dropped)
  have c: "(\<forall>d\<in>set recs. case Date_parse h (date d) of None \<Rightarrow> True | Some t \<Rightarrow> \<not> inWindow h t)
        \<longrightarrow> getContributionMatrix h recs = Inr (replicate 52 (replicate 7 None))"
  proof
    assume "\<forall>d\<in>set recs. case Date_parse h (date d) of None \<Rightarrow> True | Some t \<Rightarrow> \<not> inWindow h t"
    then have "\<forall>d\<in>set recs. slot h d = None"
      by (auto simp: slot_def split: option.splits)
    then show "getContributionMatrix h recs = Inr (replicate 52 (replicate 7 None))"
      by (simp add: getContributionMatrix_grid grid_all_dropped)
  qed
  have e: "grid h [] = replicate 52 (replicate 7 None)" by (simp add: grid_def)
  have d: "\<exists>g. getContributionMatrix h [] = Inr g \<and> length (concat g) = 364
          \<and> (\<forall>cell\<in>set (concat g). cell = None \<and> cellIntensity cell = tierClass NoneTier)"
    using shaped_concat_length [OF shaped_init]
    by (simp add: getContributionMatrix_grid e cellIntensity_None)
  show ?thesis using a b c d by blast
qed

text \<open>An instance: an unparseable date and a date outside the window.\<close>

theorem never_raises_witness:
  "Date_parse (fixedZoneHost 0 1718413200000) (date \<lparr>contributionCount = 3, date = ''not a date''\<rparr>) = None
   \<and> Date_parse (fixedZoneHost 0 1718413200000) (date \<lparr>contributionCount = 12, date = ''2022-01-01''\<rparr>)
       = Some 1640995200000
   \<and> \<not> inWindow (fixedZoneHost 0 1718413200000) 1640995200000
   \<and> getContributionMatrix (fixedZoneHost 0 1718413200000)
        [\<lparr>contributionCount = 3, date = ''not a date''\<rparr>,
         \<lparr>contributionCount = 12, date = ''2022-01-01''\<rparr>]
      = Inr (replicate 52 (replicate 7 None))"
proof -
  let ?h = "fixedZoneHost 0 1718413200000"
  let ?a = "\<lparr>contributionCount = 3, date = ''not a date''\<rparr>"
  let ?b = "\<lparr>contributionCount = 12, date = ''2022-01-01''\<rparr>"
  have p: "Date_parse ?h (date ?a) = None" by code_simp
  have q: "Date_parse ?h (date ?b) = Some 1640995200000" by code_simp
  have w: "\<not> inWindow ?h 1640995200000" by code_simp
  have a: "\<forall>d\<in>set [?a, ?b]. case Date_parse ?h (date d) of None \<Rightarrow> True
         | Some t \<Rightarrow> \<not> inWindow ?h t"
    using p q w by simp
  from never_raises [of ?h "[?a, ?b]"] a
  have "getContributionMatrix ?h [?a, ?b] = Inr (replicate 52 (replicate 7 None))"
    by blast
  then show ?thesis using p q w by blast
qed

text \<open>
  Claim C5. For every host and every list of records the function returns a grid, and
  the grid has 52 columns of 7 cells each: 364 cells.
\<close>

theorem grid_shape:
  "\<exists>g. getContributionMatrix h recs = Inr g \<and> length g = 52
       \<and> map length g = replicate 52 7 \<and> length (concat g) = 364"
  using shaped_grid [of h recs]
  by (simp add: getContributionMatrix_grid shaped_map_length shaped_concat_length shaped_def)




text \<open>
  Claim C7. A record dated 365 days before the clock reading (365 whole days and less than
  a day more) has week index 52. It is in column 0 exactly when its week index is at most
  51, which is never: it is dropped, whatever the year of the clock reading.
\<close>

theorem year_boundary_record:
  assumes "Date_parse h (date day) = Some t"
    and "365 * msPerDay \<le> now h - t"
    and "now h - t < 366 * msPerDay"
  shows "the_weekIndex h t = 52
     \<and> getContributionMatrix h (recs @ [day]) = getContributionMatrix h recs
     \<and> (\<exists>g. getContributionMatrix h (recs @ [day]) = Inr g \<and> Some day \<notin> set (concat g))
     \<and> ((\<exists>g r. getContributionMatrix h (recs @ [day]) = Inr g \<and> r < 7 \<and> g ! 0 ! r = Some day)
          = (the_weekIndex h t \<le> 51))"
proof -
  have w: "the_weekIndex h t = 52"
    unfolding the_weekIndex_def
    using assms(2,3) by (intro div_between) (simp_all add: msPerDay_def)
  have s: "slot h day = None"
    using assms(1) w by (simp add: slot_def)
  have a: "getContributionMatrix h (recs @ [day]) = getContributionMatrix h recs"
    using s by (simp add: getContributionMatrix_grid grid_snoc place_def)
  have n: "Some day \<notin> set (concat (grid h (recs @ [day])))"
    using s grid_cell_Some [of day h "recs @ [day]"] by blast
  have "\<not> (\<exists>g r. getContributionMatrix h (recs @ [day]) = Inr g \<and> r < 7 \<and> g ! 0 ! r = Some day)"
  proof
    assume "\<exists>g r. getContributionMatrix h (recs @ [day]) = Inr g \<and> r < 7 \<and> g ! 0 ! r = Some day"
    then obtain r where r: "r < 7" "grid h (recs @ [day]) ! 0 ! r = Some day"
      by (auto simp: getContributionMatrix_grid)
    have "grid h (recs @ [day]) ! 0 ! r \<in> set (concat (grid h (recs @ [day])))"
      using shaped_nth_mem [OF shaped_grid _ r(1), of 0 h "recs @ [day]"] by simp
    then show False using n r(2) by simp
  qed
  then show ?thesis using w a n by (simp add: getContributionMatrix_grid)
qed

text \<open>An instance: a clock reading in the leap year 2024 and one in 2023.\<close>

theorem year_boundary_record_witness:
  "Date_parse (fixedZoneHost 0 1718413200000) (date \<lparr>contributionCount = 0, date = ''2023-06-16''\<rparr>)
      = Some 1686873600000
   \<and> 365 * msPerDay \<le> now (fixedZoneHost 0 1718413200000) - 1686873600000
   \<and> now (fixedZoneHost 0 1718413200000) - 1686873600000 < 366 * msPerDay
   \<and> the_weekIndex (fixedZoneHost 0 1718413200000) 1686873600000 = 52
   \<and> getContributionMatrix (fixedZoneHost 0 1718413200000) [\<lparr>contributionCount = 0, date = ''2023-06-16''\<rparr>]
       = Inr (replicate 52 (replicate 7 None))
   \<and> Date_parse (fixedZoneHost 0 1686787200000) (date \<lparr>contributionCount = 2, date = ''2022-06-15''\<rparr>)
      = Some 1655251200000
   \<and> 365 * msPerDay \<le> now (fixedZoneHost 0 1686787200000) - 1655251200000
   \<and> now (fixedZoneHost 0 1686787200000) - 1655251200000 < 366 * msPerDay
   \<and> the_weekIndex (fixedZoneHost 0 1686787200000) 1655251200000 = 52
   \<and> getContributionMatrix (fixedZoneHost 0 1686787200000) [\<lparr>contributionCount = 2, date = ''2022-06-15''\<rparr>]
       = Inr (replicate 52 (replicate 7 None))"
proof -
  let ?h = "fixedZoneHost 0 1718413200000"
  let ?d = "\<lparr>contributionCount = 0, date = ''2023-06-16''\<rparr>"
  let ?k = "fixedZoneHost 0 1686787200000"
  let ?e = "\<lparr>contributionCount = 2, date = ''2022-06-15''\<rparr>"
  have p: "Date_parse ?h (date ?d) = Some 1686873600000" by code_simp
  have lo: "365 * msPerDay \<le> now ?h - 1686873600000" by (simp add: fixedZoneHost_def msPerDay_def)
  have hi: "now ?h - 1686873600000 < 366 * msPerDay" by (simp add: fixedZoneHost_def msPerDay_def)
  have q: "Date_parse ?k (date ?e) = Some 1655251200000" by code_simp
  have lo': "365 * msPerDay \<le> now ?k - 1655251200000" by (simp add: fixedZoneHost_def msPerDay_def)
  have hi': "now ?k - 1655251200000 < 366 * msPerDay" by (simp add: fixedZoneHost_def msPerDay_def)
  have e: "\<And>h. getContributionMatrix h [] = Inr (replicate 52 (replicate 7 None))"
    by (simp add: getContributionMatrix_def)
  from year_boundary_record [OF p lo hi, of "[]"] e
  have a: "the_weekIndex ?h 1686873600000 = 52
      \<and> getContributionMatrix ?h [?d] = Inr (replicate 52 (replicate 7 None))" by simp
  from year_boundary_record [OF q lo' hi', of "[]"] e
  have b: "the_weekIndex ?k 1655251200000 = 52
      \<and> getContributionMatrix ?k [?e] = Inr (replicate 52 (replicate 7 None))" by simp
  show ?thesis using p lo hi q lo' hi' a b by blast
qed

text \<open>
  Claim C8. The function takes no reference instant: it reads the wall clock. The same
  record list gives different grids at two clock readings a week apart.
\<close>

theorem clock_dependence_counterexample:
  "getContributionMatrix (fixedZoneHost 0 1718413200000) [\<lparr>contributionCount = 5, date = ''2024-06-15''\<rparr>]
   \<noteq> getContributionMatrix (fixedZoneHost 0 1719018000000) [\<lparr>contributionCount = 5, date = ''2024-06-15''\<rparr>]"
proof -
  let ?d = "\<lparr>contributionCount = 5, date = ''2024-06-15''\<rparr>"
  have a: "slot (fixedZoneHost 0 1718413200000) ?d = Some (51, 6)" by code_simp
  have b: "slot (fixedZoneHost 0 1719018000000) ?d = Some (50, 6)" by code_simp
  have "grid (fixedZoneHost 0 1718413200000) [?d] ! 51 ! 6 = Some ?d"
    using grid_cell [of 51 6 "fixedZoneHost 0 1718413200000" "[?d]"] a by simp
  moreover have "grid (fixedZoneHost 0 1719018000000) [?d] ! 51 ! 6 = None"
    using grid_cell [of 51 6 "fixedZoneHost 0 1719018000000" "[?d]"] b by simp
  ultimately have "grid (fixedZoneHost 0 1718413200000) [?d] \<noteq> grid (fixedZoneHost 0 1719018000000) [?d]"
    by auto
  then show ?thesis by (simp add: getContributionMatrix_grid)
qed

text \<open>
  Claim C8, amended. Two calls on the same records return the same grid whenever they read
  the same instant from the clock, the host's local-time offsets are the same and the
  records' date strings parse to the same dates.
\<close>

theorem same_reading_same_grid:
  assumes "now h1 = now h2"
    and "LocalTZA_utc h1 = LocalTZA_utc h2"
    and "LocalTZA_local h1 = LocalTZA_local h2"
    and "\<forall>d\<in>set recs. Date_parse h1 (date d) = Date_parse h2 (date d)"
  shows "getContributionMatrix h1 recs = getContributionMatrix h2 recs"
proof -
  have "grid h1 recs = grid h2 recs"
    using assms(4)
  proof (induction recs rule: rev_induct)
    case Nil
    show ?case by (simp add: grid_def)
  next
    case (snoc d recs)
    then have "slot h1 d = slot h2 d" using slot_cong [OF assms(1-3), of d] by simp
    then show ?case using snoc by (simp add: grid_snoc place_def)
  qed
  then show ?thesis by (simp add: getContributionMatrix_grid)
qed

text \<open>An instance: two hosts whose parsers agree on the dates of the records only.\<close>

theorem same_reading_same_grid_witness:
  "now (fixedZoneHost 0 1718413200000)
     = now ((fixedZoneHost 0 1718413200000)\<lparr>Date_parse := (\<lambda>s. if s = ''2024-06-15'' then Some 1718409600000 else None)\<rparr>)
   \<and> Date_parse (fixedZoneHost 0 1718413200000) ''2024-06-15''
       = Date_parse ((fixedZoneHost 0 1718413200000)\<lparr>Date_parse := (\<lambda>s. if s = ''2024-06-15'' then Some 1718409600000 else None)\<rparr>) ''2024-06-15''
   \<and> Date_parse (fixedZoneHost 0 1718413200000) ''2024-06-14''
       \<noteq> Date_parse ((fixedZoneHost 0 1718413200000)\<lparr>Date_parse := (\<lambda>s. if s = ''2024-06-15'' then Some 1718409600000 else None)\<rparr>) ''2024-06-14''
   \<and> getContributionMatrix (fixedZoneHost 0 1718413200000) [\<lparr>contributionCount = 5, date = ''2024-06-15''\<rparr>]
     = getContributionMatrix ((fixedZoneHost 0 1718413200000)\<lparr>Date_parse := (\<lambda>s. if s = ''2024-06-15'' then Some 1718409600000 else None)\<rparr>)
         [\<lparr>contributionCount = 5, date = ''2024-06-15''\<rparr>]"
proof -
  let ?h = "fixedZoneHost 0 1718413200000"
  let ?k = "?h\<lparr>Date_parse := (\<lambda>s. if s = ''2024-06-15'' then Some 1718409600000 else None)\<rparr>"
  let ?d = "\<lparr>contributionCount = 5, date = ''2024-06-15''\<rparr>"
  have n: "now ?h = now ?k" by simp
  have u: "LocalTZA_utc ?h = LocalTZA_utc ?k" by simp
  have l: "LocalTZA_local ?h = LocalTZA_local ?k" by simp
  have e: "isoDate_parse ''2024-06-15'' = Some 1718409600000" by code_simp
  have f: "isoDate_parse ''2024-06-14'' = Some 1718323200000" by code_simp
  have p1: "Date_parse ?h ''2024-06-15'' = Date_parse ?k ''2024-06-15''"
    using e by (simp add: fixedZoneHost_def)
  have p2: "Date_parse ?h ''2024-06-14'' \<noteq> Date_parse ?k ''2024-06-14''"
    using f by (simp add: fixedZoneHost_def)
  have p: "\<forall>d\<in>set [?d]. Date_parse ?h (date d) = Date_parse ?k (date d)"
    using p1 by simp
  from same_reading_same_grid [OF n u l p] n p1 p2 show ?thesis by blast
qed

text \<open>
  Claim C9. When two records go to the same cell and no record after the second one goes
  there, the cell holds the second record as it is: the later write replaces the earlier
  one and nothing is merged.
\<close>

theorem last_write_wins:
  assumes "slot h a = Some p"
    and "slot h b = Some p"
    and "\<forall>d\<in>set zs. slot h d \<noteq> Some p"
  shows "\<exists>g. getContributionMatrix h (xs @ a # ys @ b # zs) = Inr g
            \<and> g ! fst p ! snd p = Some b"
proof -
  obtain c r where p: "p = (c, r)" by (cases p)
  have cr: "c < 52" "r < 7" using slot_range [of h a c r] assms(1) p by simp_all
  have z: "filter (\<lambda>day. slot h day = Some (c, r)) zs = []"
    using assms(3) p by (simp add: filter_empty_conv)
  have "filter (\<lambda>day. slot h day = Some (c, r)) (xs @ a # ys @ b # zs)
      = (filter (\<lambda>day. slot h day = Some (c, r)) (xs @ a # ys)) @ [b]"
    using assms(2) p z by simp
  then have "grid h (xs @ a # ys @ b # zs) ! c ! r = Some b"
    using grid_cell_last [OF cr, of h "xs @ a # ys @ b # zs"] by simp
  then show ?thesis using p by (simp add: getContributionMatrix_grid)
qed

text \<open>An instance: two records of the same day with different counts.\<close>

theorem last_write_wins_witness:
  "slot (fixedZoneHost 0 1718413200000) \<lparr>contributionCount = 1, date = ''2024-06-15''\<rparr> = Some (51, 6)
   \<and> slot (fixedZoneHost 0 1718413200000) \<lparr>contributionCount = 7, date = ''2024-06-15''\<rparr> = Some (51, 6)
   \<and> (\<exists>g. getContributionMatrix (fixedZoneHost 0 1718413200000)
              [\<lparr>contributionCount = 1, date = ''2024-06-15''\<rparr>,
               \<lparr>contributionCount = 7, date = ''2024-06-15''\<rparr>] = Inr g
          \<and> g ! 51 ! 6 = Some \<lparr>contributionCount = 7, date = ''2024-06-15''\<rparr>)"
proof -
  let ?h = "fixedZoneHost 0 1718413200000"
  let ?a = "\<lparr>contributionCount = 1, date = ''2024-06-15''\<rparr>"
  let ?b = "\<lparr>contributionCount = 7, date = ''2024-06-15''\<rparr>"
  have a: "slot ?h ?a = Some (51, 6)" by code_simp
  have b: "slot ?h ?b = Some (51, 6)" by code_simp
  have z: "\<forall>d\<in>set []. slot ?h d \<noteq> Some (51, 6)" by simp
  from last_write_wins [OF a b z, of "[]" "[]"] a b show ?thesis by simp
qed

text \<open>
  Claim C10. For a record that passes the window test and \<open>weekIndex < 52\<close>, the week
  index is not negative, the column \<open>51 - weekIndex\<close> is between 0 and 51 and the row is
  between 0 and 6; on a 52 by 7 grid the write \<open>matrix[51 - weekIndex][dayIndex] = day\<close>
  then throws nothing, replaces one cell and leaves the grid 52 by 7.
\<close>

theorem placement_in_bounds:
  assumes "Date_parse h (date day) = Some t"
    and "date_ge (Some t) (the_oneYearAgo h)"
    and "date_le (Some t) (Some (now h))"
    and "the_weekIndex h t < 52"
    and "shaped m"
  shows "0 \<le> the_weekIndex h t
     \<and> 0 \<le> 51 - the_weekIndex h t \<and> 51 - the_weekIndex h t \<le> 51
     \<and> 0 \<le> getDay h t \<and> getDay h t \<le> 6
     \<and> placeDay h (now h) (the_oneYearAgo h) m day
         = matrix_set m (51 - the_weekIndex h t) (getDay h t) day
     \<and> matrix_set m (51 - the_weekIndex h t) (getDay h t) day
         = Inr (put m (nat (51 - the_weekIndex h t), nat (getDay h t)) day)
     \<and> shaped (put m (nat (51 - the_weekIndex h t), nat (getDay h t)) day)"
proof -
  have le: "t \<le> now h" using assms(3) by (simp add: date_le_def)
  have w0: "0 \<le> the_weekIndex h t" using le by (rule weekIndex_nonneg)
  have s: "slot h day = Some (nat (51 - the_weekIndex h t), nat (getDay h t))"
    using assms(1-4) by (simp add: slot_def inWindow_def)
  have p: "placeDay h (now h) (the_oneYearAgo h) m day
         = matrix_set m (51 - the_weekIndex h t) (getDay h t) day"
    using assms(1-4) by (simp add: placeDay_def the_weekIndex_def Let_def)
  have q: "placeDay h (now h) (the_oneYearAgo h) m day
         = Inr (put m (nat (51 - the_weekIndex h t), nat (getDay h t)) day)"
    using placeDay_place [OF assms(5), of h day] s by (simp add: place_def)
  have "shaped (put m (nat (51 - the_weekIndex h t), nat (getDay h t)) day)"
    using shaped_place [OF assms(5), of h day] s by (simp add: place_def)
  then show ?thesis using w0 assms(4) getDay_range [of h t] p q by simp
qed

text \<open>An instance: a record two weeks before a clock reading of 2024-06-15 01:00 UTC.\<close>

theorem placement_in_bounds_witness:
  "Date_parse (fixedZoneHost 0 1718413200000) (date \<lparr>contributionCount = 5, date = ''2024-06-01''\<rparr>)
      = Some 1717200000000
   \<and> date_ge (Some 1717200000000) (the_oneYearAgo (fixedZoneHost 0 1718413200000))
   \<and> date_le (Some 1717200000000) (Some (now (fixedZoneHost 0 1718413200000)))
   \<and> the_weekIndex (fixedZoneHost 0 1718413200000) 1717200000000 < 52
   \<and> shaped (replicate 52 (replicate 7 None))
   \<and> matrix_set (replicate 52 (replicate 7 None)) 49 6 \<lparr>contributionCount = 5, date = ''2024-06-01''\<rparr>
       = Inr (put (replicate 52 (replicate 7 None)) (49, 6) \<lparr>contributionCount = 5, date = ''2024-06-01''\<rparr>)"
proof -
  let ?h = "fixedZoneHost 0 1718413200000"
  let ?d = "\<lparr>contributionCount = 5, date = ''2024-06-01''\<rparr>"
  have p: "Date_parse ?h (date ?d) = Some 1717200000000" by code_simp
  have y: "date_ge (Some 1717200000000) (the_oneYearAgo ?h)" by code_simp
  have u: "date_le (Some 1717200000000) (Some (now ?h))" by code_simp
  have w: "the_weekIndex ?h 1717200000000 = 2" by code_simp
  then have w': "the_weekIndex ?h 1717200000000 < 52" by simp
  have g: "getDay ?h 1717200000000 = 6" by code_simp
  from placement_in_bounds [OF p y u w' shaped_init] w g
  have "matrix_set (replicate 52 (replicate 7 None)) 49 6 ?d
       = Inr (put (replicate 52 (replicate 7 None)) (49, 6) ?d)"
    by simp
  then show ?thesis using p y u w' shaped_init by blast
qed

end
